theory Spec2Isabelle
  imports Complex_Main "HOL-Library.AList"
begin

section \<open>JavaScript values and plain objects\<close>

text \<open>
  The values the search view stores in its state containers and query parameters are
  JavaScript primitives. The numbers among them are integers or \<open>NaN\<close>: every number the
  code stores (page counters, \<open>parseInt\<close> results, sums of found posts) is of that form.
\<close>

datatype jsnum = NaN | Num int

datatype jsval = JUndefined | JNull | JBool bool | JNumber jsnum | JStr string

text \<open>
  A plain object is the list of its own properties in insertion order. Setting the name
  \<open>__proto__\<close> is not modelled: no object of the program has an own property of that name.
\<close>

type_synonym jsobj = "(string \<times> jsval) list"

text \<open>
  The value of an own property, \<open>undefined\<close> when the object has none of that name. This
  is \<open>obj[k]\<close> for every name \<open>k\<close> that no member of \<open>Object.prototype\<close> has, such as
  the fixed names \<open>isFinished\<close> and \<open>per_page\<close>.
\<close>

definition obj_get :: "jsobj \<Rightarrow> string \<Rightarrow> jsval" where
  "obj_get obj k = (case map_of obj k of None \<Rightarrow> JUndefined | Some v \<Rightarrow> v)"

text \<open>
  Every plain object inherits the members of \<open>Object.prototype\<close>. Reading \<open>obj[k]\<close> under
  a name chosen at run time gives the own property if there is one, the inherited member
  (a function, or the prototype itself for \<open>__proto__\<close>) if \<open>k\<close> names one, and
  \<open>undefined\<close> otherwise.
\<close>

definition object_prototype_members :: "string list" where
  "object_prototype_members =
     [''constructor'', ''__proto__'', ''hasOwnProperty'', ''isPrototypeOf'',
      ''propertyIsEnumerable'', ''toLocaleString'', ''toString'', ''valueOf'',
      ''__defineGetter__'', ''__defineSetter__'', ''__lookupGetter__'', ''__lookupSetter__'']"

datatype property = Value jsval | Inherited string

definition lookup_property :: "jsobj \<Rightarrow> string \<Rightarrow> property" where
  "lookup_property obj k =
     (case map_of obj k of
        Some v \<Rightarrow> Value v
      | None \<Rightarrow> if k \<in> set object_prototype_members then Inherited k else Value JUndefined)"

definition objectKeys :: "jsobj \<Rightarrow> string list" where
  "objectKeys obj = remdups (map fst obj)"

text \<open>\<open>Object.assign(target, source)\<close>: every property of the source is set on the target, in order.\<close>

definition assign :: "(string \<times> 'v) list \<Rightarrow> (string \<times> 'v) list \<Rightarrow> (string \<times> 'v) list" where
  "assign target source = fold (\<lambda>(k, v) acc. AList.update k v acc) source target"

text \<open>Truthiness, as \<open>if (v)\<close>, \<open>!v\<close> and \<open>v || w\<close> test it.\<close>

fun truthy :: "jsval \<Rightarrow> bool" where
  "truthy JUndefined = False"
| "truthy JNull = False"
| "truthy (JBool b) = b"
| "truthy (JNumber NaN) = False"
| "truthy (JNumber (Num n)) = (n \<noteq> 0)"
| "truthy (JStr s) = (s \<noteq> [])"

subsection \<open>Numerals in strings\<close>

definition is_ws :: "char \<Rightarrow> bool" where
  "is_ws c = (c \<in> set [CHR '' '', CHR 0x09, CHR 0x0A, CHR 0x0B, CHR 0x0C, CHR 0x0D])"

definition digit_val :: "char \<Rightarrow> nat option" where
  "digit_val c =
     (let n = (of_char c :: nat) in
      if 48 \<le> n \<and> n \<le> 57 then Some (n - 48)
      else if 97 \<le> n \<and> n \<le> 122 then Some (n - 87)
      else if 65 \<le> n \<and> n \<le> 90 then Some (n - 55)
      else None)"

fun digits_prefix :: "nat \<Rightarrow> string \<Rightarrow> nat list" where
  "digits_prefix r [] = []"
| "digits_prefix r (c # cs) =
     (case digit_val c of
        None \<Rightarrow> []
      | Some d \<Rightarrow> if d < r then d # digits_prefix r cs else [])"

definition from_digits :: "nat \<Rightarrow> nat list \<Rightarrow> nat" where
  "from_digits r ds = foldl (\<lambda>a d. a * r + d) 0 ds"

definition split_sign :: "string \<Rightarrow> int \<times> string" where
  "split_sign s =
     (case s of
        [] \<Rightarrow> (1, s)
      | c # cs \<Rightarrow> if c = CHR ''-'' then (- 1, cs) else if c = CHR ''+'' then (1, cs) else (1, s))"

definition has_hex_prefix :: "string \<Rightarrow> bool" where
  "has_hex_prefix s = (take 2 s = ''0x'' \<or> take 2 s = ''0X'')"

text \<open>
  \<open>parseInt(s)\<close> without a radix: leading white space is skipped, a sign is read, a
  \<open>0x\<close> prefix selects base 16, and the longest prefix of digits is the value; \<open>NaN\<close>
  when there is no digit.
\<close>

definition parseInt :: "string \<Rightarrow> jsnum" where
  "parseInt s =
     (let (sign, u) = split_sign (dropWhile is_ws s);
          (r, w) = (if has_hex_prefix u then (16, drop 2 u) else (10, u));
          ds = digits_prefix r w
      in if ds = [] then NaN else Num (sign * int (from_digits r ds)))"

definition trim :: "string \<Rightarrow> string" where
  "trim s = rev (dropWhile is_ws (rev (dropWhile is_ws s)))"

subsection \<open>Arithmetic\<close>

text \<open>
  The numbers that \<open>*\<close>, \<open>>=\<close> and \<open>==\<close> work on: \<open>NaN\<close>, a rational, or an infinity
  with its sign (\<open>True\<close> for \<open>+Infinity\<close>). Arithmetic is exact: the rounding of
  double-precision numbers is outside the model.
\<close>

datatype number = Not_a_number | Finite rat | Infinite bool

fun of_jsnum :: "jsnum \<Rightarrow> number" where
  "of_jsnum NaN = Not_a_number"
| "of_jsnum (Num i) = Finite (of_int i)"

definition is_digit :: "char \<Rightarrow> bool" where
  "is_digit c = (case digit_val c of None \<Rightarrow> False | Some d \<Rightarrow> d < 10)"

definition all_digits :: "nat \<Rightarrow> string \<Rightarrow> bool" where
  "all_digits r w = (w \<noteq> [] \<and> length (digits_prefix r w) = length w)"

definition pow10 :: "int \<Rightarrow> rat" where
  "pow10 k = (if 0 \<le> k then 10 ^ nat k else 1 / 10 ^ nat (- k))"

text \<open>The exponent part of a decimal literal: nothing, or \<open>e\<close> or \<open>E\<close>, a sign and digits.\<close>

definition exponent_part :: "string \<Rightarrow> int option" where
  "exponent_part s =
     (case s of
        [] \<Rightarrow> Some 0
      | c # cs \<Rightarrow>
          if c = CHR ''e'' \<or> c = CHR ''E'' then
            (let (sign, ds) = split_sign cs
             in if all_digits 10 ds then Some (sign * int (from_digits 10 (digits_prefix 10 ds)))
                else None)
          else None)"

text \<open>
  An unsigned decimal literal: digits, an optional fraction and an optional exponent,
  with a digit before or after the point.
\<close>

definition decimal_literal :: "string \<Rightarrow> number" where
  "decimal_literal u =
     (let ip = takeWhile is_digit u;
          r1 = dropWhile is_digit u;
          (fp, r2) = (case r1 of
                        [] \<Rightarrow> ([], r1)
                      | c # cs \<Rightarrow> if c = CHR ''.''
                                  then (takeWhile is_digit cs, dropWhile is_digit cs)
                                  else ([], r1))
      in if ip = [] \<and> fp = [] then Not_a_number
         else (case exponent_part r2 of
                 None \<Rightarrow> Not_a_number
               | Some k \<Rightarrow>
                   Finite (of_nat (from_digits 10 (digits_prefix 10 (ip @ fp)))
                           * pow10 (k - int (length fp)))))"

definition radix_prefix :: "string \<Rightarrow> nat option" where
  "radix_prefix s =
     (if take 2 s = ''0x'' \<or> take 2 s = ''0X'' then Some 16
      else if take 2 s = ''0o'' \<or> take 2 s = ''0O'' then Some 8
      else if take 2 s = ''0b'' \<or> take 2 s = ''0B'' then Some 2
      else None)"

text \<open>
  The conversion of a string to a number that \<open>*\<close> and \<open>==\<close> apply. White space around
  the numeral is dropped and the empty string is 0. An unsigned hexadecimal, octal or
  binary integer, \<open>Infinity\<close> with an optional sign, and a decimal literal with an
  optional sign have their value; every other string is \<open>NaN\<close>.
\<close>

definition string_to_number :: "string \<Rightarrow> number" where
  "string_to_number s =
     (let t = trim s in
      if t = [] then Finite 0
      else (case radix_prefix t of
              Some r \<Rightarrow>
                (let w = drop 2 t
                 in if all_digits r w then Finite (of_nat (from_digits r (digits_prefix r w)))
                    else Not_a_number)
            | None \<Rightarrow>
                (let (sign, u) = split_sign t
                 in if u = ''Infinity'' then Infinite (0 < sign)
                    else (case decimal_literal u of
                            Finite q \<Rightarrow> Finite (of_int sign * q)
                          | n \<Rightarrow> n))))"

fun to_number :: "jsval \<Rightarrow> number" where
  "to_number JUndefined = Not_a_number"
| "to_number JNull = Finite 0"
| "to_number (JBool b) = Finite (if b then 1 else 0)"
| "to_number (JNumber n) = of_jsnum n"
| "to_number (JStr s) = string_to_number s"

fun js_mul :: "number \<Rightarrow> number \<Rightarrow> number" where
  "js_mul (Finite a) (Finite b) = Finite (a * b)"
| "js_mul (Finite a) (Infinite s) = (if a = 0 then Not_a_number else Infinite ((0 < a) = s))"
| "js_mul (Infinite s) (Finite b) = (if b = 0 then Not_a_number else Infinite ((0 < b) = s))"
| "js_mul (Infinite s) (Infinite t) = Infinite (s = t)"
| "js_mul _ _ = Not_a_number"

fun js_ge :: "number \<Rightarrow> number \<Rightarrow> bool" where
  "js_ge (Finite a) (Finite b) = (a \<ge> b)"
| "js_ge (Infinite s) (Finite b) = s"
| "js_ge (Finite a) (Infinite t) = (\<not> t)"
| "js_ge (Infinite s) (Infinite t) = (s \<or> \<not> t)"
| "js_ge _ _ = False"

fun num_eq :: "number \<Rightarrow> number \<Rightarrow> bool" where
  "num_eq (Finite a) (Finite b) = (a = b)"
| "num_eq (Infinite s) (Infinite t) = (s = t)"
| "num_eq _ _ = False"

subsection \<open>Deep equality\<close>

text \<open>
  \<open>equal\<close> is the \<open>deep-equal\<close> package in its default, non-strict mode. Primitives are
  compared with \<open>==\<close>: \<open>undefined\<close> and \<open>null\<close> equal each other and nothing else, two
  strings are equal as strings, and every other pair is compared as numbers, where
  \<open>NaN\<close> equals nothing. Two objects are equal when they have the same number of keys,
  the same keys, and equal values under every key.
\<close>

fun is_nullish :: "jsval \<Rightarrow> bool" where
  "is_nullish JUndefined = True"
| "is_nullish JNull = True"
| "is_nullish _ = False"

fun loose_eq :: "jsval \<Rightarrow> jsval \<Rightarrow> bool" where
  "loose_eq (JStr s) (JStr t) = (s = t)"
| "loose_eq a b =
     (if is_nullish a \<or> is_nullish b then is_nullish a \<and> is_nullish b
      else num_eq (to_number a) (to_number b))"

definition deep_equal :: "jsobj \<Rightarrow> jsobj \<Rightarrow> bool" where
  "deep_equal a b =
     (length (objectKeys a) = length (objectKeys b)
      \<and> list_all (\<lambda>k. k \<in> set (objectKeys b)) (objectKeys a)
      \<and> list_all (\<lambda>k. loose_eq (obj_get a k) (obj_get b k)) (objectKeys a))"

section \<open>Event bus and observable state container\<close>

text \<open>
  Modelled from the spec: the event bus (\<open>eventBusFactory\<close>) is not among the sources.
  \<open>publish(eventName, ...args)\<close> is recorded in the order of the calls; the handlers
  themselves belong to the page.
\<close>

datatype event = Event string "jsobj list"

record stateful =
  state :: jsobj
  published :: "event list"

definition publish :: "event \<Rightarrow> 'a stateful_scheme \<Rightarrow> 'a stateful_scheme" where
  "publish ev c = c\<lparr>published := published c @ [ev]\<rparr>"

text \<open>\<open>stateMixin().setState(data)\<close> of mixins.js.\<close>

definition prevState :: "'a stateful_scheme \<Rightarrow> jsobj" where
  "prevState c = assign [] (state c)"

definition newState :: "jsobj \<Rightarrow> 'a stateful_scheme \<Rightarrow> jsobj" where
  "newState data c = assign (assign [] (state c)) data"

definition setState :: "jsobj \<Rightarrow> 'a stateful_scheme \<Rightarrow> 'a stateful_scheme" where
  "setState data c =
     (if \<not> deep_equal (newState data c) (state c)
      then publish (Event ''state-set'' [newState data c, prevState c]) (c\<lparr>state := newState data c\<rparr>)
      else c)"

definition stateMixin :: "jsobj \<Rightarrow> stateful" where
  "stateMixin initialState = \<lparr>state = initialState, published = []\<rparr>"

section \<open>Request cache\<close>

text \<open>
  A thrown exception or the reason of a rejected promise. \<open>FetchError\<close> is whatever the
  transport or \<open>handleError\<close> rejects with.
\<close>

datatype error = TypeError | FetchError string

text \<open>
  A response as the endpoint reads it: what \<open>res.headers.get('X-WP-TOTAL')\<close> returns
  (\<open>None\<close> for \<open>null\<close>) and the array that \<open>res.json()\<close> decodes. A \<open>Response\<close>
  object adds the flag that says its body was read; \<open>Response\<close> objects live in a
  store and are named by their index in it.
\<close>

record response =
  x_wp_total :: "string option"
  body :: "jsobj list"

record response_obj =
  content :: response
  bodyUsed :: bool

text \<open>
  The network: what the \<open>n\<close>-th call of \<open>apiFetch\<close> settles with, for its URL and method,
  after \<open>handleError\<close>. A promise is modelled by the value it settles with.
\<close>

type_synonym network = "nat \<Rightarrow> string \<Rightarrow> string \<Rightarrow> error + response"

record requestMixin =
  requests :: "(string \<times> (error + nat)) list"
  objects :: "response_obj list"
  calls :: "(string \<times> string) list"

definition requestMixin :: requestMixin where
  "requestMixin = \<lparr>requests = [], objects = [], calls = []\<rparr>"

text \<open>
  \<open>apiFetch(endpoint, method = 'get', body = {})\<close>: one network call, recorded in
  \<open>calls\<close>. The request cache never passes a body.
\<close>

definition method_or_get :: "string option \<Rightarrow> string" where
  "method_or_get method = (case method of None \<Rightarrow> ''get'' | Some m \<Rightarrow> m)"

definition apiFetch :: "network \<Rightarrow> string \<Rightarrow> string option \<Rightarrow> requestMixin \<Rightarrow> (error + nat) \<times> requestMixin" where
  "apiFetch net endpoint method c =
     (let m = method_or_get method;
          c1 = c\<lparr>calls := calls c @ [(endpoint, m)]\<rparr>
      in case net (length (calls c)) endpoint m of
           Inl e \<Rightarrow> (Inl e, c1)
         | Inr r \<Rightarrow> (Inr (length (objects c1)),
                     c1\<lparr>objects := objects c1 @ [\<lparr>content = r, bodyUsed = False\<rparr>]\<rparr>))"

text \<open>\<open>res.clone()\<close>: a new \<open>Response\<close> with the same content; a \<open>TypeError\<close> once the body was read.\<close>

definition clone :: "nat \<Rightarrow> requestMixin \<Rightarrow> (error + nat) \<times> requestMixin" where
  "clone a c =
     (if a < length (objects c) \<and> \<not> bodyUsed (objects c ! a)
      then (Inr (length (objects c)),
            c\<lparr>objects := objects c @ [\<lparr>content = content (objects c ! a), bodyUsed = False\<rparr>]\<rparr>)
      else (Inl TypeError, c))"

text \<open>\<open>res.json()\<close>: reads the body, once.\<close>

definition json :: "nat \<Rightarrow> requestMixin \<Rightarrow> (error + jsobj list) \<times> requestMixin" where
  "json a c =
     (if a < length (objects c) \<and> \<not> bodyUsed (objects c ! a)
      then (Inr (body (content (objects c ! a))),
            c\<lparr>objects := (objects c)[a := (objects c ! a)\<lparr>bodyUsed := True\<rparr>]\<rparr>)
      else (Inl TypeError, c))"

text \<open>
  \<open>requestMixin().fetch(request = '', method)\<close> of mixins.js. The cache \<open>requests\<close> is a
  plain object. For a request named like a member of \<open>Object.prototype\<close> the test
  \<open>!requests[request]\<close> finds the inherited member, no call is made, and
  \<open>requests[request].then\<close> is not a function: \<open>fetch\<close> throws (\<open>Inl\<close>) and the cache is
  as before. Otherwise it returns a promise (\<open>Inr\<close>), given by what the promise settles
  with and the cache after the call.
\<close>

definition fetch ::
  "network \<Rightarrow> string \<Rightarrow> string option \<Rightarrow> requestMixin \<Rightarrow> error + ((error + nat) \<times> requestMixin)" where
  "fetch net request method c =
     (case map_of (requests c) request of
        None \<Rightarrow>
          if request \<in> set object_prototype_members then Inl TypeError
          else (let (p, c') = apiFetch net request method c;
                    c1 = c'\<lparr>requests := AList.update request p (requests c')\<rparr>
                in case p of
                     Inl e \<Rightarrow> Inr (Inl e, c1)
                   | Inr a \<Rightarrow> Inr (clone a c1))
      | Some p \<Rightarrow>
          (case p of
             Inl e \<Rightarrow> Inr (Inl e, c)
           | Inr a \<Rightarrow> Inr (clone a c)))"

section \<open>Query endpoint\<close>

text \<open>
  \<open>serializeObject\<close> (utils) is not among the sources; the endpoint takes it as a
  parameter, as it takes the network and the parameters that \<open>extractURLParameters\<close>
  reads from the page URL.
\<close>

type_synonym serializer = "jsobj \<Rightarrow> string"

datatype warning =
    MissingTotalHeader
  | MissingRootEl string
  | BadTemplate string
  | EmptyPathname string
  | EmptySearchParam string

text \<open>
  What a call returns: a promise that settles through the response handler of \<open>get\<close>
  on the \<open>Response\<close> copy at an address, a rejected promise, or a promise resolved
  with no value. \<open>None\<close> stands for returning \<open>undefined\<close>, and \<open>Thrown\<close> for a call
  that did not return but threw.
\<close>

datatype promise = Response_at nat | Rejected error | Resolved_undefined | Thrown error

record endpoint = stateful +
  pathname :: string
  config :: jsobj
  http_method :: string
  page :: int
  params :: jsobj
  cache :: requestMixin
  warnings :: "warning list"

definition getParams :: "endpoint \<Rightarrow> jsobj" where
  "getParams e = assign [] (params e)"

text \<open>\<open>getParam(key)\<close> is \<open>Object.assign({}, params)[key]\<close>, a read under a name chosen at run time.\<close>

definition getParam :: "string \<Rightarrow> endpoint \<Rightarrow> property" where
  "getParam key e = lookup_property (assign [] (params e)) key"

text \<open>The number that \<open>*\<close> makes of what \<open>getParam\<close> returns; an inherited member gives \<open>NaN\<close>.\<close>

fun property_number :: "property \<Rightarrow> number" where
  "property_number (Value v) = to_number v"
| "property_number (Inherited k) = Not_a_number"

definition getPage :: "endpoint \<Rightarrow> int" where
  "getPage e = page e"

text \<open>\<open>get()\<close>, up to the call of \<open>fetch\<close>.\<close>

definition get :: "serializer \<Rightarrow> network \<Rightarrow> endpoint \<Rightarrow> promise option \<times> endpoint" where
  "get ser net e =
     (let e1 = e\<lparr>page := page e + 1\<rparr>;
          request = pathname e1 @ ''?'' @
                    ser (assign (assign [] (params e1)) [(''page'', JNumber (Num (page e1)))])
      in if truthy (obj_get (state e1) ''isFinished'') then (None, e1)
         else (case fetch net request (Some (http_method e1)) (cache e1) of
                 Inl err \<Rightarrow> (Some (Thrown err), e1)
               | Inr (p, c) \<Rightarrow>
                   (case p of
                      Inl err \<Rightarrow> (Some (Rejected err), e1\<lparr>cache := c\<rparr>)
                    | Inr a \<Rightarrow> (Some (Response_at a), e1\<lparr>cache := c\<rparr>))))"

text \<open>
  The response handler of \<open>get()\<close>, run when the fetch promise resolves with the
  \<open>Response\<close> at address \<open>res\<close>. It reads \<open>page\<close> and the parameters as they are then.
\<close>

definition get_then :: "nat \<Rightarrow> endpoint \<Rightarrow> (error + jsobj list) \<times> endpoint" where
  "get_then res e =
     (if res < length (objects (cache e)) then
        (let total = x_wp_total (content (objects (cache e) ! res));
             e1 = (case total of
                     None \<Rightarrow> e\<lparr>warnings := warnings e @ [MissingTotalHeader]\<rparr>
                   | Some t \<Rightarrow>
                       if t = [] then e\<lparr>warnings := warnings e @ [MissingTotalHeader]\<rparr>
                       else
                         (let isFinished = js_ge (js_mul (of_jsnum (Num (page e)))
                                                         (property_number (getParam ''per_page'' e)))
                                                 (of_jsnum (parseInt t));
                              e' = setState [(''foundPosts'', JNumber (parseInt t)),
                                             (''isFinished'', JBool isFinished)] e
                          in if isFinished then publish (Event ''listing-finished'' []) e' else e'));
             (r, c) = json res (cache e1)
         in (r, e1\<lparr>cache := c\<rparr>))
      else (Inl TypeError, e))"

text \<open>
  Modelled from the spec: \<open>mapObject\<close> (utils) is not among the sources. It calls the
  function on every key of the object, with the value under it.
\<close>

definition mapObject :: "jsobj \<Rightarrow> (string \<Rightarrow> jsval \<Rightarrow> 's \<Rightarrow> 's) \<Rightarrow> 's \<Rightarrow> 's" where
  "mapObject obj f s = fold (\<lambda>k. f k (obj_get obj k)) (objectKeys obj) s"

definition is_empty_string :: "jsval \<Rightarrow> bool" where
  "is_empty_string v = (case v of JStr s \<Rightarrow> s = [] | _ \<Rightarrow> False)"

definition setQuery :: "serializer \<Rightarrow> network \<Rightarrow> jsobj \<Rightarrow> bool \<Rightarrow> endpoint \<Rightarrow> promise option \<times> endpoint" where
  "setQuery ser net query runQuery e =
     (let e1 = e\<lparr>page := 0\<rparr>;
          e2 = setState [(''isFinished'', JBool False)] e1;
          e3 = e2\<lparr>params := assign (params e2) query\<rparr>;
          e4 = e3\<lparr>params := mapObject (params e3)
                  (\<lambda>k v ps. if is_empty_string v then AList.delete k ps else ps) (params e3)\<rparr>
      in if runQuery then get ser net e4 else (Some Resolved_undefined, e4))"

definition clearQuery :: "endpoint \<Rightarrow> endpoint" where
  "clearQuery e = e\<lparr>params := assign [] (config e)\<rparr>"

definition postEndpointFactory ::
  "serializer \<Rightarrow> network \<Rightarrow> jsobj \<Rightarrow> string \<Rightarrow> jsobj \<Rightarrow> bool \<Rightarrow> string \<Rightarrow> endpoint" where
  "postEndpointFactory ser net urlParameters pathname_arg config_arg parseURL method =
     (let endpoint = \<lparr>state = [(''isFinished'', JBool False), (''foundPosts'', JNumber (Num 0))],
                       published = [],
                       pathname = pathname_arg,
                       config = config_arg,
                       http_method = method,
                       page = 0,
                       params = assign [] config_arg,
                       cache = requestMixin,
                       warnings = []\<rparr>
      in if parseURL then snd (setQuery ser net urlParameters True endpoint) else endpoint)"

text \<open>The calls a client of an endpoint makes, and the state they lead to.\<close>

datatype endpoint_call = Get | Get_then nat | SetQuery jsobj bool | ClearQuery

fun perform :: "serializer \<Rightarrow> network \<Rightarrow> endpoint_call \<Rightarrow> endpoint \<Rightarrow> endpoint" where
  "perform ser net Get e = snd (get ser net e)"
| "perform ser net (Get_then res) e = snd (get_then res e)"
| "perform ser net (SetQuery query runQuery) e = snd (setQuery ser net query runQuery e)"
| "perform ser net ClearQuery e = clearQuery e"

definition perform_all :: "serializer \<Rightarrow> network \<Rightarrow> endpoint_call list \<Rightarrow> endpoint \<Rightarrow> endpoint" where
  "perform_all ser net cs e = fold (perform ser net) cs e"

section \<open>Search view\<close>

subsection \<open>Listing configuration\<close>

text \<open>
  A value of a listing configuration: a primitive, a function (the text \<open>String(f)\<close>
  gives and the number of its declared parameters), an element of the page, or a plain
  object of primitives.
\<close>

datatype cfgval = CPrim jsval | CFun string nat | CElem nat | CObj jsobj

type_synonym cfgobj = "(string \<times> cfgval) list"

definition cfg_get :: "cfgobj \<Rightarrow> string \<Rightarrow> cfgval" where
  "cfg_get obj k = (case map_of obj k of None \<Rightarrow> CPrim JUndefined | Some v \<Rightarrow> v)"

fun cfg_truthy :: "cfgval \<Rightarrow> bool" where
  "cfg_truthy (CPrim v) = truthy v"
| "cfg_truthy _ = True"

fun is_function :: "cfgval \<Rightarrow> bool" where
  "is_function (CFun src n) = True"
| "is_function _ = False"

text \<open>
  Reading \<open>v.length\<close>: a \<open>TypeError\<close> on \<open>undefined\<close> and \<open>null\<close>, the length of a
  string, the number of parameters of a function, the \<open>length\<close> property of an object
  if it has one, \<open>undefined\<close> otherwise.
\<close>

fun prop_length :: "cfgval \<Rightarrow> error + jsval" where
  "prop_length (CPrim JUndefined) = Inl TypeError"
| "prop_length (CPrim JNull) = Inl TypeError"
| "prop_length (CPrim (JStr s)) = Inr (JNumber (Num (int (length s))))"
| "prop_length (CPrim v) = Inr JUndefined"
| "prop_length (CFun src n) = Inr (JNumber (Num (int n)))"
| "prop_length (CElem el) = Inr JUndefined"
| "prop_length (CObj obj) = Inr (obj_get obj ''length'')"

fun show_nat :: "nat \<Rightarrow> string" where
  "show_nat n =
     (if n < 10 then [char_of (48 + n)]
      else show_nat (n div 10) @ [char_of (48 + n mod 10)])"

definition show_int :: "int \<Rightarrow> string" where
  "show_int i = (if i < 0 then ''-'' @ show_nat (nat (- i)) else show_nat (nat i))"

text \<open>The string that \<open>v + '?'\<close> starts with.\<close>

fun to_string :: "cfgval \<Rightarrow> string" where
  "to_string (CPrim JUndefined) = ''undefined''"
| "to_string (CPrim JNull) = ''null''"
| "to_string (CPrim (JBool b)) = (if b then ''true'' else ''false'')"
| "to_string (CPrim (JNumber NaN)) = ''NaN''"
| "to_string (CPrim (JNumber (Num i))) = show_int i"
| "to_string (CPrim (JStr s)) = s"
| "to_string (CFun src n) = src"
| "to_string (CElem el) = ''[object HTMLElement]''"
| "to_string (CObj obj) = ''[object Object]''"

text \<open>
  The properties that \<open>Object.assign({}, config)\<close> copies, with the default \<open>{}\<close> of
  the \<open>config\<close> parameter: those of an object, the characters of a string under their
  indices, none otherwise.
\<close>

fun own_properties :: "cfgval \<Rightarrow> jsobj" where
  "own_properties (CObj obj) = obj"
| "own_properties (CPrim (JStr s)) = map (\<lambda>i. (show_nat i, JStr [s ! i])) [0..<length s]"
| "own_properties _ = []"

definition listingDefaults :: cfgobj where
  "listingDefaults =
     [(''searchParam'', CPrim (JStr ''search'')),
      (''noResultsTemplate'', CPrim JNull),
      (''parseURL'', CPrim (JBool False))]"

subsection \<open>The view\<close>

record listing =
  options :: cfgobj
  endpoint :: endpoint

record view = stateful +
  listings :: "(string \<times> listing) list"
  console :: "warning list"

definition warn :: "warning \<Rightarrow> view \<Rightarrow> view" where
  "warn w v = v\<lparr>console := console v @ [w]\<rparr>"

text \<open>\<open>createListing(name = '', listingConfig = {})\<close> of search.js.\<close>

definition createListing ::
  "serializer \<Rightarrow> network \<Rightarrow> jsobj \<Rightarrow> string \<Rightarrow> cfgobj \<Rightarrow> view \<Rightarrow> error + view" where
  "createListing ser net urlParameters name listingConfig v =
     (let listingOptions = assign (assign [] listingDefaults) listingConfig;
          rootEl = cfg_get listingOptions ''rootEl'';
          pathname_opt = cfg_get listingOptions ''pathname'';
          template = cfg_get listingOptions ''template'';
          searchParam = cfg_get listingOptions ''searchParam'';
          config_opt = cfg_get listingOptions ''config'';
          parseURL = cfg_get listingOptions ''parseURL''
      in if \<not> cfg_truthy rootEl then Inr (warn (MissingRootEl name) v)
         else if \<not> cfg_truthy template \<or> \<not> is_function template
           then Inr (warn (BadTemplate name) v)
         else
           (case prop_length pathname_opt of
              Inl err \<Rightarrow> Inl err
            | Inr len \<Rightarrow>
                if \<not> truthy len then Inr (warn (EmptyPathname name) v)
                else
                  (case prop_length searchParam of
                     Inl err \<Rightarrow> Inl err
                   | Inr len' \<Rightarrow>
                       if \<not> truthy len' then Inr (warn (EmptySearchParam name) v)
                       else Inr (v\<lparr>listings := AList.update name
                                   \<lparr>options = listingOptions,
                                    endpoint = postEndpointFactory ser net urlParameters
                                      (to_string pathname_opt) (own_properties config_opt)
                                      (cfg_truthy parseURL) ''GET''\<rparr>
                                   (listings v)\<rparr>))))"

text \<open>
  \<open>searchViewFactory(el, config)\<close>: the state container of the view and one
  \<open>createListing\<close> for every entry of \<open>config.listings\<close>, stopping at the first exception.
\<close>

fun createListings ::
  "serializer \<Rightarrow> network \<Rightarrow> jsobj \<Rightarrow> (string \<times> cfgobj) list \<Rightarrow> view \<Rightarrow> error + view" where
  "createListings ser net urlParameters [] v = Inr v"
| "createListings ser net urlParameters ((name, listingConfig) # rest) v =
     (case createListing ser net urlParameters name listingConfig v of
        Inl err \<Rightarrow> Inl err
      | Inr v' \<Rightarrow> createListings ser net urlParameters rest v')"

definition searchViewFactory ::
  "serializer \<Rightarrow> network \<Rightarrow> jsobj \<Rightarrow> (string \<times> cfgobj) list \<Rightarrow> error + view" where
  "searchViewFactory ser net urlParameters listings_config =
     createListings ser net urlParameters listings_config
       \<lparr>state = [(''loading'', JBool False), (''visible'', JBool False),
                 (''foundPosts'', JNumber (Num 0))],
        published = [], listings = [], console = []\<rparr>"

subsection \<open>Taxonomy toggles\<close>

text \<open>\<open>s.split(sep)\<close> for a one-character separator, and \<open>xs.join(sep)\<close>.\<close>

fun split :: "char \<Rightarrow> string \<Rightarrow> string list" where
  "split sep [] = [[]]"
| "split sep (c # cs) =
     (if c = sep then [] # split sep cs
      else (case split sep cs of
              [] \<Rightarrow> [[c]]
            | x # xs \<Rightarrow> (c # x) # xs))"

fun join :: "string \<Rightarrow> string list \<Rightarrow> string" where
  "join sep [] = []"
| "join sep [x] = x"
| "join sep (x # y # ys) = x @ sep @ join sep (y # ys)"

text \<open>
  Modelled from the spec: \<open>inArray\<close> (utils) is not among the sources. It says whether
  the slug is one of the active slugs.
\<close>

definition inArray :: "'a \<Rightarrow> 'a list \<Rightarrow> bool" where
  "inArray x xs = (x \<in> set xs)"

text \<open>
  \<open>setListingQuery(listing, query)\<close>, up to the promise that \<open>endpoint.setQuery\<close>
  returns. The listing is named by its key in \<open>this.listings\<close>.
\<close>

definition setListingQuery ::
  "serializer \<Rightarrow> network \<Rightarrow> string \<Rightarrow> jsobj \<Rightarrow> view \<Rightarrow> error + (promise \<times> view)" where
  "setListingQuery ser net listingName query v =
     (case map_of (listings v) listingName of
        None \<Rightarrow> Inl TypeError
      | Some l \<Rightarrow>
          (let v1 = setState [(''loading'', JBool True)] v;
               (p, e) = setQuery ser net query True (endpoint l)
           in case p of
                None \<Rightarrow> Inl TypeError
              | Some (Thrown err) \<Rightarrow> Inl err
              | Some pr \<Rightarrow> Inr (pr, v1\<lparr>listings := AList.update listingName (l\<lparr>endpoint := e\<rparr>) (listings v1)\<rparr>)))"

text \<open>
  The handler of the \<open>tax-set\<close> event in \<open>bindTaxToggles\<close>. \<open>(getParam(tax) || '').split\<close>
  is a function only when \<open>getParam(tax)\<close> is falsy or a string; on a truthy number or
  boolean and on an inherited member of \<open>Object.prototype\<close> the call throws.
\<close>

definition tax_set ::
  "serializer \<Rightarrow> network \<Rightarrow> string \<Rightarrow> string \<Rightarrow> string \<Rightarrow> bool \<Rightarrow> view \<Rightarrow> error + view" where
  "tax_set ser net tax slug listingName shouldToggle v =
     (case map_of (listings v) listingName of
        None \<Rightarrow> Inl TypeError
      | Some l \<Rightarrow>
          (case (case getParam tax (endpoint l) of
                   Value p \<Rightarrow> Value (if truthy p then p else JStr [])
                 | Inherited k \<Rightarrow> Inherited k) of
             Value (JStr cur) \<Rightarrow>
               (let currentQuery = filter (\<lambda>v. v \<noteq> []) (split CHR '','' cur);
                    nextQuery =
                      (if shouldToggle
                       then (if inArray slug currentQuery
                             then filter (\<lambda>s. s \<noteq> slug) currentQuery
                             else currentQuery @ [slug])
                       else [slug]);
                    query = [(tax, JStr (join '','' nextQuery))]
                in if join '','' currentQuery = join '','' nextQuery then Inr v
                   else (case setListingQuery ser net listingName query v of
                           Inl err \<Rightarrow> Inl err
                         | Inr (p, v') \<Rightarrow> Inr v'))
           | _ \<Rightarrow> Inl TypeError))"

text \<open>The parameter value of a taxonomy in a listing of the view.\<close>

definition listing_param :: "string \<Rightarrow> string \<Rightarrow> view \<Rightarrow> property" where
  "listing_param listingName tax v =
     (case map_of (listings v) listingName of
        None \<Rightarrow> Value JUndefined
      | Some l \<Rightarrow> getParam tax (endpoint l))"

section \<open>Runs of calls\<close>

text \<open>
  The calls the clients of a request cache make: a \<open>fetch\<close>, or reading the body of the
  copy that the \<open>k\<close>-th \<open>fetch\<close> so far resolved with. A run keeps what every \<open>fetch\<close>
  settled with, or the exception it threw.
\<close>

datatype cache_call = Fetch string "string option" | Read_body nat



fun fetched :: "cache_call list \<Rightarrow> string list" where
  "fetched [] = []"
| "fetched (Fetch request method # cs) = request # fetched cs"
| "fetched (Read_body k # cs) = fetched cs"




text \<open>A network whose every response reports a total of 30 posts.\<close>

definition net30 :: network where
  "net30 = (\<lambda>n r m. Inr \<lparr>x_wp_total = Some ''30'', body = []\<rparr>)"

text \<open>
  A serializer for the examples: \<open>key=value\<close> pairs joined by \<open>&\<close>, without escaping.
\<close>

definition query_string :: serializer where
  "query_string obj = join ''&'' (map (\<lambda>(k, v). k @ ''='' @ to_string (CPrim v)) obj)"

text \<open>
  What holds of an endpoint in every state that the factory and the calls of its
  clients lead to: a parameter name occurs once, \<open>isFinished\<close> is a boolean, and
  \<open>config\<close> is the configuration the endpoint was made with.
\<close>

definition endpoint_inv :: "jsobj \<Rightarrow> endpoint \<Rightarrow> bool" where
  "endpoint_inv cfg e =
     (distinct (map fst (params e))
      \<and> (\<exists>b. obj_get (state e) ''isFinished'' = JBool b)
      \<and> config e = cfg)"

text \<open>Two \<open>tax-set\<close> events in a row for the same checkbox, and the parameter read afterwards.\<close>

definition toggle_twice ::
  "serializer \<Rightarrow> network \<Rightarrow> string \<Rightarrow> string \<Rightarrow> string \<Rightarrow> view \<Rightarrow> error + view" where
  "toggle_twice ser net tax slug listingName v =
     (case tax_set ser net tax slug listingName True v of
        Inl err \<Rightarrow> Inl err
      | Inr v1 \<Rightarrow> tax_set ser net tax slug listingName True v1)"

definition param_after :: "string \<Rightarrow> string \<Rightarrow> error + view \<Rightarrow> error + property" where
  "param_after listingName tax r = map_sum id (listing_param listingName tax) r"

text \<open>A view with one listing, \<open>posts\<close>, whose configuration sets the taxonomy \<open>cat\<close>.\<close>

definition posts_view :: "jsobj \<Rightarrow> error + view" where
  "posts_view cfg =
     searchViewFactory query_string net30 []
       [(''posts'',
         [(''template'', CFun ''postSearchTemplate'' 1),
          (''rootEl'', CElem 0),
          (''pathname'', CPrim (JStr ''/posts'')),
          (''searchParam'', CPrim (JStr ''s'')),
          (''scroll'', CPrim (JBool True)),
          (''config'', CObj cfg)])]"

definition toggle_twice_in :: "string \<Rightarrow> string \<Rightarrow> string \<Rightarrow> error + view \<Rightarrow> error + view" where
  "toggle_twice_in tax slug listingName r =
     (case r of Inl err \<Rightarrow> Inl err | Inr v \<Rightarrow> toggle_twice query_string net30 tax slug listingName v)"

text \<open>
  The parameter value that stands for a list of active slugs: the slugs joined by
  commas, and no parameter at all for the empty list.
\<close>

definition slug_list_value :: "string list \<Rightarrow> property" where
  "slug_list_value xs = Value (if xs = [] then JUndefined else JStr (join '','' xs))"

section \<open>Properties of objects and deep equality\<close>

lemma map_of_assign: "map_of (assign t s) = map_of t ++ map_of (rev s)"
  unfolding assign_def
proof (induction s arbitrary: t)
  case Nil
  show ?case by simp
next
  case (Cons p s)
  obtain k v where p: "p = (k, v)" by (cases p)
  have "map_of (fold (\<lambda>(k, v). AList.update k v) s (AList.update k v t))
        = map_of (AList.update k v t) ++ map_of (rev s)"
    by (rule Cons.IH)
  also have "\<dots> = map_of t ++ (map_of (rev s @ [(k, v)]))"
    by (simp add: update_conv' map_add_def fun_eq_iff split: option.splits)
  finally show ?case by (simp add: p)
qed

lemma distinct_assign: "distinct (map fst t) \<Longrightarrow> distinct (map fst (assign t s))"
  unfolding assign_def
  by (induction s arbitrary: t) (auto simp: distinct_update)

lemma map_of_rev_distinct: "distinct (map fst xs) \<Longrightarrow> map_of (rev xs) = map_of xs"
  by (subst map_of_inject_set) (simp_all add: rev_map[symmetric])

lemma obj_get_assign:
  "obj_get (assign t s) k = (case map_of (rev s) k of None \<Rightarrow> obj_get t k | Some v \<Rightarrow> v)"
  by (simp add: obj_get_def map_of_assign map_add_def split: option.splits)

lemma set_objectKeys: "set (objectKeys a) = dom (map_of a)"
  by (simp add: objectKeys_def dom_map_of_conv_image_fst)

lemma deep_equal_iff:
  "deep_equal a b \<longleftrightarrow>
     dom (map_of a) = dom (map_of b) \<and> (\<forall>k \<in> dom (map_of a). loose_eq (obj_get a k) (obj_get b k))"
proof -
  have d: "distinct (objectKeys a)" "distinct (objectKeys b)" by (simp_all add: objectKeys_def)
  have "length (objectKeys a) = length (objectKeys b) \<and> set (objectKeys a) \<subseteq> set (objectKeys b)
        \<longleftrightarrow> set (objectKeys a) = set (objectKeys b)"
    using d by (metis card_subset_eq distinct_card List.finite_set subset_refl)
  then show ?thesis
    unfolding deep_equal_def list_all_iff set_objectKeys[symmetric] by blast
qed

lemma loose_eq_refl: "loose_eq v v \<longleftrightarrow> v \<noteq> JNumber NaN"
proof (cases v)
  case (JNumber n)
  then show ?thesis by (cases n) simp_all
qed simp_all

lemma deep_equal_same_map:
  assumes "map_of a = map_of b" and "JNumber NaN \<notin> snd ` set b"
  shows "deep_equal a b"
proof -
  have "loose_eq (obj_get a k) (obj_get b k)" if "k \<in> dom (map_of a)" for k
  proof -
    from that obtain v where v: "map_of a k = Some v" by blast
    then have "(k, v) \<in> set b" using assms(1) by (simp add: map_of_SomeD)
    then have "v \<noteq> JNumber NaN" using assms(2) by force
    then show ?thesis using v assms(1) by (simp add: obj_get_def loose_eq_refl)
  qed
  then show ?thesis using assms(1) by (simp add: deep_equal_iff)
qed

lemma string_to_number_examples:
  "string_to_number ''1e1'' = Finite 10"
  "string_to_number ''1.0'' = Finite 1"
  "string_to_number '' 1.5 '' = Finite (3 / 2)"
  "string_to_number ''0x1F'' = Finite 31"
  "string_to_number ''-Infinity'' = Infinite False"
  "string_to_number ''12px'' = Not_a_number"
  "string_to_number [] = Finite 0"
  by (simp_all add: string_to_number_def trim_def is_ws_def radix_prefix_def split_sign_def
      decimal_literal_def exponent_part_def is_digit_def digit_val_def all_digits_def
      from_digits_def pow10_def)

section \<open>The state container\<close>

lemma newState_idem:
  "map_of (assign (assign [] (newState data c)) data) = map_of (newState data c)"
proof -
  have "distinct (map fst (newState data c))"
    unfolding newState_def by (intro distinct_assign) simp
  then show ?thesis
    by (simp add: map_of_assign map_of_rev_distinct)
       (simp add: newState_def map_of_assign map_add_def fun_eq_iff split: option.splits)
qed

text \<open>
  C5 (as amended). \<open>setState(partial)\<close> replaces the state with
  \<open>{...current, ...partial}\<close> and publishes one \<open>state-set\<close> event, with the new and the
  previous state, exactly when the merged state is deep-unequal to the current state;
  otherwise it changes nothing. A second \<open>setState\<close> with the same partial, right after
  the first, changes and publishes nothing when no value of the merged state is \<open>NaN\<close>.
  So the two calls publish once when the first merge changes the state, and not at all
  when it does not.
\<close>

theorem setState_publishes_iff_changed:
  "(\<not> deep_equal (newState data c) (state c) \<longrightarrow>
      setState data c = c\<lparr>state := newState data c,
        published := published c @ [Event ''state-set'' [newState data c, prevState c]]\<rparr>)
   \<and> (deep_equal (newState data c) (state c) \<longrightarrow> setState data c = c)
   \<and> (JNumber NaN \<notin> snd ` set (newState data c) \<longrightarrow>
        setState data (setState data c) = setState data c)"
proof (intro conjI impI)
  assume nan: "JNumber NaN \<notin> snd ` set (newState data c)"
  show "setState data (setState data c) = setState data c"
  proof (cases "deep_equal (newState data c) (state c)")
    case True
    then show ?thesis by (simp add: setState_def)
  next
    case False
    let ?c' = "publish (Event ''state-set'' [newState data c, prevState c]) (c\<lparr>state := newState data c\<rparr>)"
    have st: "state ?c' = newState data c" by (simp add: publish_def)
    have "newState data ?c' = assign (assign [] (newState data c)) data"
      by (simp add: newState_def publish_def)
    then have "deep_equal (newState data ?c') (state ?c')"
      using newState_idem[of data c] nan st by (simp add: deep_equal_same_map)
    then show ?thesis using False by (simp add: setState_def)
  qed
qed (simp_all add: setState_def publish_def)

theorem setState_publishes_iff_changed_witness:
  "\<not> deep_equal (newState [(''loading'', JBool True)] (stateMixin [(''loading'', JBool False)]))
       (state (stateMixin [(''loading'', JBool False)]))
   \<and> JNumber NaN \<notin> snd ` set (newState [(''loading'', JBool True)] (stateMixin [(''loading'', JBool False)]))
   \<and> setState [(''loading'', JBool True)] (stateMixin [(''loading'', JBool False)])
       = \<lparr>state = [(''loading'', JBool True)],
          published = [Event ''state-set'' [[(''loading'', JBool True)], [(''loading'', JBool False)]]]\<rparr>
   \<and> setState [(''loading'', JBool True)]
        (setState [(''loading'', JBool True)] (stateMixin [(''loading'', JBool False)]))
       = setState [(''loading'', JBool True)] (stateMixin [(''loading'', JBool False)])"
proof -
  let ?d = "[(''loading'', JBool True)]"
  let ?c = "stateMixin [(''loading'', JBool False)]"
  note t = setState_publishes_iff_changed [of ?d ?c]
  have a: "\<not> deep_equal (newState ?d ?c) (state ?c)"
    by (simp add: stateMixin_def newState_def assign_def deep_equal_def objectKeys_def obj_get_def)
  have b: "JNumber NaN \<notin> snd ` set (newState ?d ?c)"
    by (simp add: stateMixin_def newState_def assign_def)
  from t a have "setState ?d ?c = ?c\<lparr>state := newState ?d ?c,
        published := published ?c @ [Event ''state-set'' [newState ?d ?c, prevState ?c]]\<rparr>"
    by blast
  then have c: "setState ?d ?c = \<lparr>state = [(''loading'', JBool True)],
          published = [Event ''state-set'' [[(''loading'', JBool True)], [(''loading'', JBool False)]]]\<rparr>"
    by (simp add: stateMixin_def newState_def prevState_def assign_def)
  from t b have d: "setState ?d (setState ?d ?c) = setState ?d ?c" by blast
  from a b c d show ?thesis by blast
qed

text \<open>
  The claim as stated fails where the partial is already part of the state: two calls
  of \<open>setState({loading: true})\<close> on the state \<open>{loading: true}\<close> publish nothing.
\<close>

theorem setState_twice_counterexample:
  "length (published (setState [(''loading'', JBool True)]
      (setState [(''loading'', JBool True)] (stateMixin [(''loading'', JBool True)])))) \<noteq> 1"
  by (simp add: setState_def stateMixin_def newState_def assign_def deep_equal_def objectKeys_def obj_get_def)

section \<open>The request cache\<close>






lemma fetched_append_Fetch: "fetched (cs @ [Fetch r m]) = fetched cs @ [r]"
  by (induction cs rule: fetched.induct) simp_all

lemma fetched_append_Read: "fetched (cs @ [Read_body k]) = fetched cs"
  by (induction cs rule: fetched.induct) simp_all


















section \<open>The query endpoint\<close>

lemma setState_frame:
  "more (setState d c) = more c"
  by (simp add: setState_def publish_def)

lemma setState_endpoint_frame:
  fixes e :: endpoint
  shows "page (setState d e) = page e" "params (setState d e) = params e"
    "cache (setState d e) = cache e" "config (setState d e) = config e"
    "pathname (setState d e) = pathname e" "http_method (setState d e) = http_method e"
    "warnings (setState d e) = warnings e"
  by (simp_all add: setState_def publish_def)

lemma get_finished:
  "truthy (obj_get (state e) ''isFinished'') \<Longrightarrow> get ser net e = (None, e\<lparr>page := page e + 1\<rparr>)"
  by (simp add: get_def Let_def)

lemma get_frame:
  "page (snd (get ser net e)) = page e + 1"
  "params (snd (get ser net e)) = params e"
  "state (snd (get ser net e)) = state e"
  "published (snd (get ser net e)) = published e"
  "config (snd (get ser net e)) = config e"
  "warnings (snd (get ser net e)) = warnings e"
  by (simp_all add: get_def Let_def split: prod.splits sum.splits)

lemma get_not_finished:
  "\<not> truthy (obj_get (state e) ''isFinished'') \<Longrightarrow> fst (get ser net e) \<noteq> None"
  by (simp add: get_def Let_def split: prod.splits sum.splits)

lemma setState_bool:
  assumes old: "obj_get (state c) k = JBool b0" and new: "map_of (rev data) k = Some (JBool b)"
  shows "obj_get (state (setState data c)) k = JBool b"
proof -
  have n: "obj_get (newState data c) k = JBool b"
    using new by (simp add: newState_def obj_get_assign)
  show ?thesis
  proof (cases "deep_equal (newState data c) (state c)")
    case False
    then show ?thesis using n by (simp add: setState_def publish_def)
  next
    case True
    have "k \<in> dom (map_of (newState data c))"
      using new by (auto simp: newState_def map_of_assign)
    then have "loose_eq (obj_get (newState data c) k) (obj_get (state c) k)"
      using True by (simp add: deep_equal_iff)
    then have "b = b0" using n old by (simp split: if_splits)
    then show ?thesis using True old by (simp add: setState_def)
  qed
qed

lemma mapObject_delete_map_of:
  "map_of (fold (\<lambda>k acc. if P k then AList.delete k acc else acc) ks acc0) k
     = (if k \<in> set ks \<and> P k then None else map_of acc0 k)"
  by (induction ks arbitrary: acc0) (auto simp: delete_conv')

lemma mapObject_delete_distinct:
  "distinct (map fst acc0) \<Longrightarrow>
   distinct (map fst (fold (\<lambda>k acc. if P k then AList.delete k acc else acc) ks acc0))"
  by (induction ks arbitrary: acc0) (auto simp: distinct_delete)

lemma obj_get_getParams:
  "distinct (map fst (params e)) \<Longrightarrow> obj_get (getParams e) k = obj_get (params e) k"
  by (simp add: getParams_def obj_get_def map_of_assign map_of_rev_distinct)

lemma params_setQuery:
  "params (snd (setQuery ser net q r e)) =
     mapObject (assign (params e) q)
       (\<lambda>k v ps. if is_empty_string v then AList.delete k ps else ps) (assign (params e) q)"
  by (simp add: setQuery_def Let_def get_frame setState_endpoint_frame)

lemma setQuery_no_empty_map_of:
  "map_of (params (snd (setQuery ser net q r e))) k \<noteq> Some (JStr [])"
proof
  let ?ps = "assign (params e) q"
  assume a: "map_of (params (snd (setQuery ser net q r e))) k = Some (JStr [])"
  then have b: "(if k \<in> set (objectKeys ?ps) \<and> is_empty_string (obj_get ?ps k) then None else map_of ?ps k)
      = Some (JStr [])"
    by (simp add: params_setQuery mapObject_def mapObject_delete_map_of)
  then have "map_of ?ps k = Some (JStr [])" by (simp split: if_splits)
  moreover from this have "k \<in> set (objectKeys ?ps)" "is_empty_string (obj_get ?ps k)"
    by (auto simp: set_objectKeys obj_get_def is_empty_string_def)
  ultimately show False using b by simp
qed

lemma setQuery_distinct:
  "distinct (map fst (params e)) \<Longrightarrow> distinct (map fst (params (snd (setQuery ser net q r e))))"
  by (simp add: params_setQuery mapObject_def mapObject_delete_distinct distinct_assign)

lemma setQuery_no_empty:
  assumes "distinct (map fst (params e))"
  shows "obj_get (getParams (snd (setQuery ser net q r e))) k \<noteq> JStr []"
proof -
  have "obj_get (getParams (snd (setQuery ser net q r e))) k
        = obj_get (params (snd (setQuery ser net q r e))) k"
    using assms by (intro obj_get_getParams setQuery_distinct)
  then show ?thesis
    using setQuery_no_empty_map_of[of ser net q r e k] by (auto simp: obj_get_def split: option.splits)
qed


lemma update_fresh: "k \<notin> fst ` set al \<Longrightarrow> AList.update k v al = al @ [(k, v)]"
  by (induction al) auto

lemma assign_distinct_append:
  "distinct (map fst (acc @ t)) \<Longrightarrow> assign acc t = acc @ t"
proof (induction t arbitrary: acc)
  case Nil
  show ?case by (simp add: assign_def)
next
  case (Cons p t)
  obtain k v where p: "p = (k, v)" by (cases p)
  have fresh: "k \<notin> fst ` set acc" using Cons.prems p by auto
  have "assign acc (p # t) = assign (acc @ [(k, v)]) t"
    using fresh by (simp add: assign_def p update_fresh)
  also have "\<dots> = (acc @ [(k, v)]) @ t"
    using Cons.prems p by (intro Cons.IH) simp
  finally show ?case by (simp add: p)
qed

lemma assign_Nil_distinct: "distinct (map fst t) \<Longrightarrow> assign [] t = t"
  using assign_distinct_append[of "[]" t] by simp

lemma endpoint_inv_factory_plain:
  "endpoint_inv cfg (postEndpointFactory ser net url path cfg False m)"
  by (auto simp: endpoint_inv_def postEndpointFactory_def distinct_assign obj_get_def)

lemma endpoint_inv_get: "endpoint_inv cfg e \<Longrightarrow> endpoint_inv cfg (snd (get ser net e))"
  by (simp add: endpoint_inv_def get_frame)

lemma endpoint_inv_clearQuery: "endpoint_inv cfg e \<Longrightarrow> endpoint_inv cfg (clearQuery e)"
  by (simp add: endpoint_inv_def clearQuery_def distinct_assign)

lemma setQuery_frame:
  "config (snd (setQuery ser net q r e)) = config e"
  "page (snd (setQuery ser net q r e)) = (if r then 1 else 0)"
  by (simp_all add: setQuery_def Let_def get_frame setState_endpoint_frame)

lemma state_setQuery:
  "state (snd (setQuery ser net q r e)) = state (setState [(''isFinished'', JBool False)] e)"
  by (simp add: setQuery_def Let_def get_frame) (simp add: setState_def publish_def newState_def prevState_def)

lemma endpoint_inv_setQuery:
  assumes "endpoint_inv cfg e"
  shows "endpoint_inv cfg (snd (setQuery ser net q r e))"
proof -
  from assms obtain b where b: "obj_get (state e) ''isFinished'' = JBool b"
    unfolding endpoint_inv_def by blast
  have "obj_get (state (setState [(''isFinished'', JBool False)] e)) ''isFinished'' = JBool False"
    by (rule setState_bool[OF b]) simp
  then have "\<exists>b. obj_get (state (snd (setQuery ser net q r e))) ''isFinished'' = JBool b"
    unfolding state_setQuery by blast
  then show ?thesis
    using assms unfolding endpoint_inv_def
    by (simp add: setQuery_distinct setQuery_frame)
qed

lemma json_cache_only:
  "(case json a c of (r, c') \<Rightarrow> (r, e\<lparr>cache := c'\<rparr>)) = (fst (json a c), e\<lparr>cache := snd (json a c)\<rparr>)"
  by (simp add: split_beta)

lemma get_then_frame:
  "params (snd (get_then res e)) = params e"
  "page (snd (get_then res e)) = page e"
  "config (snd (get_then res e)) = config e"
  by (simp_all add: get_then_def Let_def split_beta publish_def setState_endpoint_frame
      split: option.splits)

lemma state_get_then:
  "state (snd (get_then res e)) =
     (if res < length (objects (cache e)) then
        (case x_wp_total (content (objects (cache e) ! res)) of
           None \<Rightarrow> state e
         | Some t \<Rightarrow> if t = [] then state e
             else state (setState [(''foundPosts'', JNumber (parseInt t)),
                    (''isFinished'', JBool (js_ge (js_mul (of_jsnum (Num (page e))) (property_number (getParam ''per_page'' e))) (of_jsnum (parseInt t))))] e))
      else state e)"
  by (simp add: get_then_def Let_def split_beta publish_def split: option.splits)

lemma endpoint_inv_get_then:
  assumes "endpoint_inv cfg e"
  shows "endpoint_inv cfg (snd (get_then res e))"
proof -
  from assms obtain b where b: "obj_get (state e) ''isFinished'' = JBool b"
    unfolding endpoint_inv_def by blast
  have "\<exists>b'. obj_get (state (setState [(''foundPosts'', v), (''isFinished'', JBool f)] e)) ''isFinished'' = JBool b'" for v f
    using setState_bool[OF b, of "[(''foundPosts'', v), (''isFinished'', JBool f)]" f] by simp
  then have "\<exists>b'. obj_get (state (snd (get_then res e))) ''isFinished'' = JBool b'"
    using b by (simp add: state_get_then split: option.splits)
  then show ?thesis
    using assms unfolding endpoint_inv_def by (simp add: get_then_frame)
qed

lemma endpoint_inv_perform: "endpoint_inv cfg e \<Longrightarrow> endpoint_inv cfg (perform ser net c e)"
  by (cases c) (simp_all add: endpoint_inv_get endpoint_inv_get_then endpoint_inv_setQuery endpoint_inv_clearQuery)

lemma endpoint_inv_perform_all:
  "endpoint_inv cfg e \<Longrightarrow> endpoint_inv cfg (perform_all ser net cs e)"
  unfolding perform_all_def
  by (induction cs arbitrary: e) (simp_all add: endpoint_inv_perform)

lemma endpoint_inv_factory:
  "endpoint_inv cfg (postEndpointFactory ser net url path cfg parseURL m)"
proof (cases parseURL)
  case False
  then show ?thesis using endpoint_inv_factory_plain by simp
next
  case True
  have "postEndpointFactory ser net url path cfg True m
        = snd (setQuery ser net url True (postEndpointFactory ser net url path cfg False m))"
    by (simp add: postEndpointFactory_def)
  then show ?thesis using True endpoint_inv_setQuery[OF endpoint_inv_factory_plain] by simp
qed

lemma endpoint_inv_reachable:
  "endpoint_inv cfg (perform_all ser net cs (postEndpointFactory ser net url path cfg parseURL m))"
  by (intro endpoint_inv_perform_all endpoint_inv_factory)


lemmas eval_defs = perform_all_def postEndpointFactory_def get_def get_then_def setQuery_def
  fetch_def apiFetch_def clone_def json_def requestMixin_def method_or_get_def net30_def
  query_string_def assign_def obj_get_def getParam_def getParams_def getPage_def
  lookup_property_def object_prototype_members_def
  setState_def newState_def prevState_def publish_def deep_equal_def objectKeys_def
  parseInt_def split_sign_def is_ws_def has_hex_prefix_def digit_val_def from_digits_def
  show_int_def mapObject_def is_empty_string_def Let_def

text \<open>
  C1. On a finished endpoint \<open>get()\<close> returns nothing, issues no network call and
  leaves the state as it is (lemma \<open>get_finished\<close>), but it has already advanced the page
  counter: the increment is part of building the request, before the test of
  \<open>isFinished\<close>. An endpoint with \<open>per_page = 30\<close> whose first response reports 30 posts
  is finished on page 1; the next \<open>get()\<close> returns nothing and leaves the counter at 2.
\<close>

theorem get_after_finished_advances_page:
  "truthy (obj_get (state (perform_all query_string net30 [Get, Get_then 1]
       (postEndpointFactory query_string net30 [] ''/posts'' [(''per_page'', JNumber (Num 30))] False ''GET''))) ''isFinished'')
   \<and> getPage (perform_all query_string net30 [Get, Get_then 1]
       (postEndpointFactory query_string net30 [] ''/posts'' [(''per_page'', JNumber (Num 30))] False ''GET'')) = 1
   \<and> fst (get query_string net30 (perform_all query_string net30 [Get, Get_then 1]
       (postEndpointFactory query_string net30 [] ''/posts'' [(''per_page'', JNumber (Num 30))] False ''GET''))) = None
   \<and> getPage (snd (get query_string net30 (perform_all query_string net30 [Get, Get_then 1]
       (postEndpointFactory query_string net30 [] ''/posts'' [(''per_page'', JNumber (Num 30))] False ''GET'')))) = 2"
  by (simp add: eval_defs)

text \<open>
  The claim as stated fails for the default \<open>runQuery = true\<close>: the page counter is 1,
  not 0, when \<open>setQuery\<close> returns.
\<close>

theorem setQuery_page_counterexample:
  "getPage (snd (setQuery query_string net30 [(''search'', JStr ''dog'')] True
      (postEndpointFactory query_string net30 [] ''/posts'' [(''per_page'', JNumber (Num 12))] False ''GET''))) \<noteq> 0"
  by (simp add: getPage_def setQuery_frame)

text \<open>
  C2 (as amended). \<open>getPage()\<close> is 0 right after \<open>setQuery(query, false)\<close> and 1 right after
  \<open>setQuery(query)\<close>, whose \<open>get()\<close> has already asked for the first page; every \<open>get()\<close> on
  an endpoint that is not finished increases \<open>getPage()\<close> by exactly 1.
\<close>

theorem getPage_after_setQuery_and_get:
  "getPage (snd (setQuery ser net query False e)) = 0
   \<and> getPage (snd (setQuery ser net query True e)) = 1
   \<and> (\<not> truthy (obj_get (state e) ''isFinished'') \<longrightarrow>
        getPage (snd (get ser net e)) = getPage e + 1)"
  by (simp add: getPage_def setQuery_frame get_frame)

theorem getPage_after_setQuery_and_get_witness:
  "\<not> truthy (obj_get (state (postEndpointFactory query_string net30 [] ''/posts'' [(''per_page'', JNumber (Num 12))] False ''GET'')) ''isFinished'')
   \<and> getPage (snd (get query_string net30
         (postEndpointFactory query_string net30 [] ''/posts'' [(''per_page'', JNumber (Num 12))] False ''GET''))) = 1"
proof -
  let ?e = "postEndpointFactory query_string net30 [] ''/posts'' [(''per_page'', JNumber (Num 12))] False ''GET''"
  have a: "\<not> truthy (obj_get (state ?e) ''isFinished'')"
    by (simp add: postEndpointFactory_def obj_get_def)
  have b: "getPage ?e = 0" by (simp add: postEndpointFactory_def getPage_def)
  from getPage_after_setQuery_and_get [of query_string net30 "[]" ?e] a
  have "getPage (snd (get query_string net30 ?e)) = getPage ?e + 1" by blast
  with a b show ?thesis by simp
qed


lemma perform_all_append:
  "perform_all ser net (cs @ ds) e = perform_all ser net ds (perform_all ser net cs e)"
  by (simp add: perform_all_def)

text \<open>
  C3. Whatever state an endpoint is in, after any non-empty sequence of \<open>setQuery\<close>
  calls, with or without running the query, no key of \<open>getParams()\<close> has the empty
  string as its value.
\<close>

theorem setQuery_leaves_no_empty_string:
  fixes ser :: serializer and net :: network and cs :: "endpoint_call list"
    and url cfg :: jsobj and path m :: string and parseURL :: bool
    and qs :: "(jsobj \<times> bool) list"
  defines "e \<equiv> perform_all ser net cs (postEndpointFactory ser net url path cfg parseURL m)"
  shows "qs \<noteq> [] \<longrightarrow>
     (\<forall>k. obj_get (getParams (perform_all ser net (map (\<lambda>(query, runQuery). SetQuery query runQuery) qs) e)) k
          \<noteq> JStr [])"
proof (intro impI allI)
  fix k assume "qs \<noteq> []"
  then obtain qs' q r where qs: "qs = qs' @ [(q, r)]"
    by (cases qs rule: rev_cases) auto
  let ?e' = "perform_all ser net (map (\<lambda>(query, runQuery). SetQuery query runQuery) qs') e"
  have "endpoint_inv cfg ?e'"
    unfolding e_def by (intro endpoint_inv_perform_all endpoint_inv_reachable)
  then have d: "distinct (map fst (params ?e'))" unfolding endpoint_inv_def by blast
  have "perform_all ser net (map (\<lambda>(query, runQuery). SetQuery query runQuery) qs) e
        = snd (setQuery ser net q r ?e')"
    by (simp add: qs perform_all_append) (simp add: perform_all_def)
  then show "obj_get (getParams (perform_all ser net (map (\<lambda>(query, runQuery). SetQuery query runQuery) qs) e)) k
          \<noteq> JStr []"
    using setQuery_no_empty[OF d] by simp
qed

theorem setQuery_leaves_no_empty_string_witness:
  "[([(''search'', JStr ''dog''), (''category'', JStr [])], True), ([(''search'', JStr [])], False)] \<noteq> []
   \<and> obj_get (getParams (perform_all query_string net30
        (map (\<lambda>(query, runQuery). SetQuery query runQuery)
           [([(''search'', JStr ''dog''), (''category'', JStr [])], True), ([(''search'', JStr [])], False)])
        (perform_all query_string net30 []
          (postEndpointFactory query_string net30 [] ''/posts'' [(''per_page'', JNumber (Num 12))] False ''GET'')))) ''search''
      \<noteq> JStr []
   \<and> getParams (perform_all query_string net30
        (map (\<lambda>(query, runQuery). SetQuery query runQuery)
           [([(''search'', JStr ''dog''), (''category'', JStr [])], True), ([(''search'', JStr [])], False)])
        (perform_all query_string net30 []
          (postEndpointFactory query_string net30 [] ''/posts'' [(''per_page'', JNumber (Num 12))] False ''GET'')))
      = [(''per_page'', JNumber (Num 12))]"
proof -
  let ?qs = "[([(''search'', JStr ''dog''), (''category'', JStr [])], True), ([(''search'', JStr [])], False)]"
  have ne: "?qs \<noteq> []" by simp
  from setQuery_leaves_no_empty_string
    [where qs = ?qs and ser = query_string and net = net30 and cs = "[]" and url = "[]"
       and path = "''/posts''" and cfg = "[(''per_page'', JNumber (Num 12))]"
       and parseURL = False and m = "''GET''"] ne
  have a: "obj_get (getParams (perform_all query_string net30
        (map (\<lambda>(query, runQuery). SetQuery query runQuery) ?qs)
        (perform_all query_string net30 []
          (postEndpointFactory query_string net30 [] ''/posts'' [(''per_page'', JNumber (Num 12))] False ''GET'')))) ''search''
      \<noteq> JStr []"
    by blast
  have b: "getParams (perform_all query_string net30
        (map (\<lambda>(query, runQuery). SetQuery query runQuery) ?qs)
        (perform_all query_string net30 []
          (postEndpointFactory query_string net30 [] ''/posts'' [(''per_page'', JNumber (Num 12))] False ''GET'')))
      = [(''per_page'', JNumber (Num 12))]"
    by (simp add: eval_defs)
  from ne a b show ?thesis by blast
qed






lemma perform_frame_clearQuery:
  "getPage (clearQuery e) = getPage e" "state (clearQuery e) = state e"
  "published (clearQuery e) = published e" "cache (clearQuery e) = cache e"
  by (simp_all add: clearQuery_def getPage_def)

text \<open>
  C9. In every state of an endpoint, \<open>clearQuery()\<close> resets the parameters to those of
  the configuration the endpoint was made with, and leaves the page counter, the state
  (\<open>isFinished\<close>, \<open>foundPosts\<close>), the published events and the request cache as they are.
\<close>

theorem clearQuery_resets_params_only:
  fixes ser :: serializer and net :: network and cs :: "endpoint_call list"
    and url cfg :: jsobj and path m :: string and parseURL :: bool
  defines "e \<equiv> perform_all ser net cs (postEndpointFactory ser net url path cfg parseURL m)"
  shows "getParams (clearQuery e) = getParams (postEndpointFactory ser net url path cfg False m)
     \<and> (distinct (map fst cfg) \<longrightarrow> getParams (clearQuery e) = cfg)
     \<and> getPage (clearQuery e) = getPage e
     \<and> state (clearQuery e) = state e
     \<and> published (clearQuery e) = published e
     \<and> cache (clearQuery e) = cache e"
proof -
  have "endpoint_inv cfg e" unfolding e_def by (rule endpoint_inv_reachable)
  then have c: "config e = cfg" unfolding endpoint_inv_def by blast
  have p: "getParams (clearQuery e) = assign [] (assign [] cfg)"
    using c by (simp add: getParams_def clearQuery_def)
  have "getParams (postEndpointFactory ser net url path cfg False m) = assign [] (assign [] cfg)"
    by (simp add: getParams_def postEndpointFactory_def)
  moreover have "getParams (clearQuery e) = cfg" if "distinct (map fst cfg)"
    using that p by (simp add: assign_Nil_distinct)
  ultimately show ?thesis using p by (simp add: perform_frame_clearQuery)
qed

theorem clearQuery_resets_params_only_witness:
  "distinct (map fst [(''per_page'', JNumber (Num 12))])
   \<and> getParams (perform_all query_string net30 [SetQuery [(''search'', JStr ''dog'')] True, Get_then 1]
        (postEndpointFactory query_string net30 [] ''/posts'' [(''per_page'', JNumber (Num 12))] False ''GET''))
       = [(''per_page'', JNumber (Num 12)), (''search'', JStr ''dog'')]
   \<and> getParams (clearQuery (perform_all query_string net30 [SetQuery [(''search'', JStr ''dog'')] True, Get_then 1]
        (postEndpointFactory query_string net30 [] ''/posts'' [(''per_page'', JNumber (Num 12))] False ''GET'')))
       = [(''per_page'', JNumber (Num 12))]
   \<and> getPage (clearQuery (perform_all query_string net30 [SetQuery [(''search'', JStr ''dog'')] True, Get_then 1]
        (postEndpointFactory query_string net30 [] ''/posts'' [(''per_page'', JNumber (Num 12))] False ''GET''))) = 1"
proof -
  let ?e = "perform_all query_string net30 [SetQuery [(''search'', JStr ''dog'')] True, Get_then 1]
        (postEndpointFactory query_string net30 [] ''/posts'' [(''per_page'', JNumber (Num 12))] False ''GET'')"
  have a: "distinct (map fst [(''per_page'', JNumber (Num 12))])" by simp
  have b: "getParams ?e = [(''per_page'', JNumber (Num 12)), (''search'', JStr ''dog'')]"
    by (simp add: eval_defs)
  have c: "getPage ?e = 1" by (simp add: eval_defs)
  note t = clearQuery_resets_params_only
    [where ser = query_string and net = net30
       and cs = "[SetQuery [(''search'', JStr ''dog'')] True, Get_then 1]" and url = "[]"
       and path = "''/posts''" and cfg = "[(''per_page'', JNumber (Num 12))]"
       and parseURL = False and m = "''GET''"]
  from t a have d: "getParams (clearQuery ?e) = [(''per_page'', JNumber (Num 12))]" by blast
  from t have "getPage (clearQuery ?e) = getPage ?e" by blast
  with a b c d show ?thesis by simp
qed

section \<open>The search view\<close>

lemma split_no_sep: "c \<notin> set x \<Longrightarrow> split c x = [x]"
  by (induction x) auto

lemma split_append_sep: "c \<notin> set x \<Longrightarrow> split c (x @ c # rest) = x # split c rest"
  by (induction x) auto

lemma split_join:
  "xs \<noteq> [] \<Longrightarrow> \<forall>x \<in> set xs. c \<notin> set x \<Longrightarrow> split c (join [c] xs) = xs"
proof (induction xs)
  case Nil
  then show ?case by simp
next
  case (Cons x xs)
  show ?case
  proof (cases xs)
    case Nil
    then show ?thesis using Cons.prems by (simp add: split_no_sep)
  next
    case (Cons y ys)
    have ih: "split c (join [c] (y # ys)) = y # ys"
      using Cons.IH Cons.prems Cons by simp
    have x: "c \<notin> set x" using Cons.prems by simp
    have "join [c] (x # y # ys) = x @ c # join [c] (y # ys)" by simp
    then have "split c (join [c] (x # y # ys)) = x # split c (join [c] (y # ys))"
      using split_append_sep[OF x, of "join [c] (y # ys)"] by simp
    then show ?thesis unfolding Cons ih by simp
  qed
qed


lemma filter_split_join:
  assumes "\<forall>x \<in> set xs. x \<noteq> [] \<and> c \<notin> set x"
  shows "filter (\<lambda>v. v \<noteq> []) (split c (join [c] xs)) = xs"
proof (cases "xs = []")
  case True
  then show ?thesis by simp
next
  case False
  have "\<forall>x \<in> set xs. c \<notin> set x" using assms by blast
  with False have s: "split c (join [c] xs) = xs" by (rule split_join)
  have "\<forall>x \<in> set xs. x \<noteq> []" using assms by blast
  then have f: "filter (\<lambda>v. v \<noteq> []) xs = xs" by (simp only: filter_id_conv)
  show ?thesis unfolding s by (rule f)
qed

lemma join_eq_Nil:
  assumes "\<forall>x \<in> set xs. x \<noteq> []"
  shows "join sep xs = [] \<longleftrightarrow> xs = []"
proof (cases xs)
  case Nil
  then show ?thesis by simp
next
  case (Cons x ys)
  then have "x \<noteq> []" using assms by simp
  then show ?thesis unfolding Cons by (cases ys) simp_all
qed

lemma join_inject:
  assumes "\<forall>x \<in> set xs. x \<noteq> [] \<and> c \<notin> set x" "\<forall>x \<in> set ys. x \<noteq> [] \<and> c \<notin> set x"
    and "join [c] xs = join [c] ys"
  shows "xs = ys"
proof -
  have "xs = filter (\<lambda>v. v \<noteq> []) (split c (join [c] xs))"
    by (rule filter_split_join[OF assms(1), symmetric])
  also have "\<dots> = filter (\<lambda>v. v \<noteq> []) (split c (join [c] ys))"
    by (simp only: assms(3))
  also have "\<dots> = ys" by (rule filter_split_join[OF assms(2)])
  finally show ?thesis .
qed


lemma setQuery_returns_promise:
  assumes "endpoint_inv cfg e"
  shows "fst (setQuery ser net q True e) \<noteq> None"
proof -
  from assms obtain b where b: "obj_get (state (e\<lparr>page := 0\<rparr>)) ''isFinished'' = JBool b"
    unfolding endpoint_inv_def by auto
  have f: "obj_get (state (setState [(''isFinished'', JBool False)] (e\<lparr>page := 0\<rparr>))) ''isFinished'' = JBool False"
    by (rule setState_bool[OF b]) simp
  define e2 where "e2 = setState [(''isFinished'', JBool False)] (e\<lparr>page := 0\<rparr>)"
  define e4 where "e4 = e2\<lparr>params := mapObject (assign (params e2) q)
      (\<lambda>k v ps. if is_empty_string v then AList.delete k ps else ps) (assign (params e2) q)\<rparr>"
  have run: "setQuery ser net q True e = get ser net e4"
    unfolding setQuery_def Let_def e4_def e2_def by simp
  have "state e4 = state e2" by (simp add: e4_def)
  then have "\<not> truthy (obj_get (state e4) ''isFinished'')" using f by (simp add: e2_def)
  then show ?thesis unfolding run by (rule get_not_finished)
qed

lemma prototype_member_no_question_mark:
  "r \<in> set object_prototype_members \<Longrightarrow> CHR ''?'' \<notin> set r"
  by (auto simp: object_prototype_members_def)

lemma fetch_throws_only_prototype_member:
  "fetch net r m c = Inl err \<Longrightarrow> r \<in> set object_prototype_members"
  by (auto simp: fetch_def Let_def split: option.splits if_splits prod.splits sum.splits)

lemma get_not_thrown: "fst (get ser net e) \<noteq> Some (Thrown err)"
proof -
  let ?request = "pathname e @ ''?'' @
      ser (assign (assign [] (params e)) [(''page'', JNumber (Num (page e + 1)))])"
  have "?request \<notin> set object_prototype_members"
    using prototype_member_no_question_mark[of ?request] by auto
  then have "fetch net ?request m c \<noteq> Inl err'" for m c err'
    using fetch_throws_only_prototype_member by blast
  then show ?thesis
    by (auto simp: get_def Let_def split: sum.splits prod.splits)
qed

lemma setQuery_not_thrown: "fst (setQuery ser net q r e) \<noteq> Some (Thrown err)"
  by (simp add: setQuery_def Let_def get_not_thrown)

lemma lookup_property_own:
  "k \<notin> set object_prototype_members \<Longrightarrow> lookup_property obj k = Value (obj_get obj k)"
  by (simp add: lookup_property_def obj_get_def split: option.splits)

lemma getParam_setQuery:
  assumes d: "distinct (map fst (params e))" and tax: "tax \<notin> set object_prototype_members"
  shows "getParam tax (snd (setQuery ser net [(tax, JStr s)] r e))
         = Value (if s = [] then JUndefined else JStr s)"
proof -
  let ?ps = "assign (params e) [(tax, JStr s)]"
  have look: "map_of ?ps tax = Some (JStr s)" by (simp add: map_of_assign)
  then have key: "tax \<in> set (objectKeys ?ps)" by (auto simp: set_objectKeys)
  have "getParam tax (snd (setQuery ser net [(tax, JStr s)] r e))
        = Value (obj_get (params (snd (setQuery ser net [(tax, JStr s)] r e))) tax)"
    using obj_get_getParams[OF setQuery_distinct[OF d]] lookup_property_own[OF tax]
    by (simp add: getParam_def getParams_def)
  also have "\<dots> = Value (if s = [] then JUndefined else JStr s)"
    using look key
    by (simp add: params_setQuery mapObject_def obj_get_def mapObject_delete_map_of is_empty_string_def)
  finally show ?thesis .
qed


lemma setState_view_frame:
  fixes v :: view
  shows "listings (setState d v) = listings v" "console (setState d v) = console v"
  by (simp_all add: setState_def publish_def)

lemma toggle_changes:
  "(if slug \<in> set xs then filter (\<lambda>s. s \<noteq> slug) xs else xs @ [slug]) \<noteq> xs"
proof (cases "slug \<in> set xs")
  case True
  then have "length (filter (\<lambda>s. s \<noteq> slug) xs) < length xs"
    by (intro length_filter_less[of slug]) simp_all
  then show ?thesis using True by auto
next
  case False
  then show ?thesis by simp
qed

lemma tax_set_step:
  assumes l: "map_of (listings v) name = Some l"
    and inv: "endpoint_inv cfg (endpoint l)"
    and cur: "getParam tax (endpoint l) = slug_list_value xs"
    and xs: "\<forall>x \<in> set xs. x \<noteq> [] \<and> CHR '','' \<notin> set x"
    and slug: "slug \<noteq> []" "CHR '','' \<notin> set slug"
    and tax: "tax \<notin> set object_prototype_members"
  shows "\<exists>v' l'. tax_set ser net tax slug name True v = Inr v'
           \<and> map_of (listings v') name = Some l'
           \<and> endpoint_inv cfg (endpoint l')
           \<and> getParam tax (endpoint l')
               = slug_list_value (if slug \<in> set xs then filter (\<lambda>s. s \<noteq> slug) xs else xs @ [slug])"
proof -
  let ?next = "if slug \<in> set xs then filter (\<lambda>s. s \<noteq> slug) xs else xs @ [slug]"
  let ?query = "[(tax, JStr (join '','' ?next))]"
  have nonempty: "join '','' xs \<noteq> []" if "xs \<noteq> []"
    using that xs join_eq_Nil[of xs "'',''"] by blast
  have curq: "(case getParam tax (endpoint l) of
                 Value p \<Rightarrow> Value (if truthy p then p else JStr [])
               | Inherited k \<Rightarrow> Inherited k) = Value (JStr (join '','' xs))"
    using nonempty by (simp add: cur slug_list_value_def)
  have current: "filter (\<lambda>v. v \<noteq> []) (split CHR '','' (join '','' xs)) = xs"
    using xs by (rule filter_split_join)
  have nx: "\<forall>x \<in> set ?next. x \<noteq> [] \<and> CHR '','' \<notin> set x"
    using xs slug by auto
  have differ: "join '','' xs \<noteq> join '','' ?next"
  proof
    assume "join '','' xs = join '','' ?next"
    then have "xs = ?next" by (rule join_inject[OF xs nx])
    then have "?next = xs" by (rule sym)
    with toggle_changes[of slug xs] show False by (rule notE)
  qed
  obtain p e' where sq: "setQuery ser net ?query True (endpoint l) = (p, e')"
    by (cases "setQuery ser net ?query True (endpoint l)")
  have "p \<noteq> None" using setQuery_returns_promise[OF inv, of ser net ?query] sq by simp
  then obtain pr where pr: "p = Some pr" by blast
  have nt: "pr \<noteq> Thrown err" for err
    using setQuery_not_thrown[of ser net ?query True "endpoint l" err] sq pr by simp
  let ?v1 = "setState [(''loading'', JBool True)] v"
  let ?v' = "?v1\<lparr>listings := AList.update name (l\<lparr>endpoint := e'\<rparr>) (listings ?v1)\<rparr>"
  have slq: "setListingQuery ser net name ?query v = Inr (pr, ?v')"
    using l sq pr nt by (cases pr) (auto simp: setListingQuery_def Let_def)
  have ts: "tax_set ser net tax slug name True v = Inr ?v'"
    unfolding tax_set_def using l differ
    by (simp add: curq current inArray_def slq del: split.simps join.simps)
  have look: "map_of (listings ?v') name = Some (l\<lparr>endpoint := e'\<rparr>)"
    by (simp add: update_conv')
  have e': "e' = snd (setQuery ser net ?query True (endpoint l))" using sq by simp
  have inv': "endpoint_inv cfg e'" unfolding e' by (rule endpoint_inv_setQuery[OF inv])
  have d: "distinct (map fst (params (endpoint l)))" using inv unfolding endpoint_inv_def by blast
  have "getParam tax e' = Value (if join '','' ?next = [] then JUndefined else JStr (join '','' ?next))"
    unfolding e' by (rule getParam_setQuery[OF d tax])
  also have "\<dots> = slug_list_value ?next"
    using join_eq_Nil[of ?next "'',''"] nx unfolding slug_list_value_def by auto
  finally have gp: "getParam tax e' = slug_list_value ?next" .
  show ?thesis using ts look inv' gp by (intro exI[of _ ?v'] exI[of _ "l\<lparr>endpoint := e'\<rparr>"]) simp
qed


text \<open>
  C7 (as amended). Let the parameter of a taxonomy, whose name is not the name of a
  member of \<open>Object.prototype\<close>, be absent or a comma-joined list of non-empty slugs
  without commas, in a listing whose endpoint has each parameter name once and a
  boolean \<open>isFinished\<close>, as the factory and every call leave it. Toggling a
  non-empty slug without comma twice in a row, with \<open>shouldToggle = true\<close>, leaves the
  parameter as it was when the slug was not in the list (add, then remove). When the
  slug was in the list (remove, then add) the same slugs are active afterwards, with the
  toggled slug moved to the end of the list.
\<close>

theorem toggle_twice_restores_or_moves:
  assumes l: "map_of (listings v) name = Some l"
    and inv: "endpoint_inv cfg (endpoint l)"
    and cur: "listing_param name tax v = slug_list_value xs"
    and xs: "\<forall>x \<in> set xs. x \<noteq> [] \<and> CHR '','' \<notin> set x"
    and slug: "slug \<noteq> []" "CHR '','' \<notin> set slug"
    and tax: "tax \<notin> set object_prototype_members"
  shows "param_after name tax (toggle_twice ser net tax slug name v)
         = Inr (if slug \<in> set xs
                then slug_list_value (filter (\<lambda>s. s \<noteq> slug) xs @ [slug])
                else listing_param name tax v)"
proof -
  let ?ys = "if slug \<in> set xs then filter (\<lambda>s. s \<noteq> slug) xs else xs @ [slug]"
  have cur': "getParam tax (endpoint l) = slug_list_value xs"
    using cur l by (simp add: listing_param_def)
  from tax_set_step[OF l inv cur' xs slug tax, of ser net]
  obtain v1 l1 where s1: "tax_set ser net tax slug name True v = Inr v1"
    and l1: "map_of (listings v1) name = Some l1"
    and inv1: "endpoint_inv cfg (endpoint l1)"
    and cur1: "getParam tax (endpoint l1) = slug_list_value ?ys"
    by blast
  have ys: "\<forall>x \<in> set ?ys. x \<noteq> [] \<and> CHR '','' \<notin> set x"
    using xs slug by auto
  from tax_set_step[OF l1 inv1 cur1 ys slug tax, of ser net]
  obtain v2 l2 where s2: "tax_set ser net tax slug name True v1 = Inr v2"
    and l2: "map_of (listings v2) name = Some l2"
    and cur2: "getParam tax (endpoint l2)
        = slug_list_value (if slug \<in> set ?ys then filter (\<lambda>s. s \<noteq> slug) ?ys else ?ys @ [slug])"
    by blast
  have twice: "toggle_twice ser net tax slug name v = Inr v2"
    using s1 s2 by (simp add: toggle_twice_def)
  have after: "param_after name tax (toggle_twice ser net tax slug name v)
      = Inr (slug_list_value (if slug \<in> set ?ys then filter (\<lambda>s. s \<noteq> slug) ?ys else ?ys @ [slug]))"
    using twice l2 cur2 by (simp add: param_after_def listing_param_def)
  show ?thesis
  proof (cases "slug \<in> set xs")
    case True
    then show ?thesis using after by simp
  next
    case False
    then have "filter (\<lambda>s. s \<noteq> slug) xs = xs" by (simp add: filter_id_conv) auto
    then show ?thesis using False after cur by simp
  qed
qed

lemmas view_eval_defs = posts_view_def searchViewFactory_def createListing_def listingDefaults_def
  cfg_get_def toggle_twice_in_def toggle_twice_def tax_set_def setListingQuery_def
  param_after_def listing_param_def inArray_def slug_list_value_def warn_def

text \<open>
  The claim as stated fails for a slug that is active and not the last of the list:
  with \<open>cat = 'a,b'\<close>, toggling \<open>a\<close> twice leaves \<open>cat = 'b,a'\<close>.
\<close>

theorem toggle_twice_counterexample:
  "param_after ''posts'' ''cat'' (posts_view [(''cat'', JStr ''a,b'')]) = Inr (Value (JStr ''a,b''))
   \<and> param_after ''posts'' ''cat''
        (toggle_twice_in ''cat'' ''a'' ''posts'' (posts_view [(''cat'', JStr ''a,b'')]))
       = Inr (Value (JStr ''b,a''))"
  by (simp add: view_eval_defs eval_defs)


theorem toggle_twice_restores_or_moves_witness:
  "map_of (listings (projr (posts_view [(''cat'', JStr ''a,b'')]))) ''posts''
     = Some (the (map_of (listings (projr (posts_view [(''cat'', JStr ''a,b'')]))) ''posts''))
   \<and> endpoint_inv [(''cat'', JStr ''a,b'')]
        (endpoint (the (map_of (listings (projr (posts_view [(''cat'', JStr ''a,b'')]))) ''posts'')))
   \<and> listing_param ''posts'' ''cat'' (projr (posts_view [(''cat'', JStr ''a,b'')]))
       = slug_list_value [''a'', ''b'']
   \<and> ''a'' \<noteq> [] \<and> CHR '','' \<notin> set ''a'' \<and> ''b'' \<noteq> [] \<and> CHR '','' \<notin> set ''b''
   \<and> ''c'' \<noteq> [] \<and> CHR '','' \<notin> set ''c''
   \<and> ''cat'' \<notin> set object_prototype_members
   \<and> param_after ''posts'' ''cat''
        (toggle_twice query_string net30 ''cat'' ''c'' ''posts'' (projr (posts_view [(''cat'', JStr ''a,b'')])))
       = Inr (Value (JStr ''a,b''))"
proof -
  let ?v = "projr (posts_view [(''cat'', JStr ''a,b'')])"
  let ?l = "the (map_of (listings ?v) ''posts'')"
  have a: "map_of (listings ?v) ''posts'' = Some ?l"
    by (simp add: view_eval_defs eval_defs)
  have b: "endpoint_inv [(''cat'', JStr ''a,b'')] (endpoint ?l)"
    by (auto simp: endpoint_inv_def view_eval_defs eval_defs)
  have c: "listing_param ''posts'' ''cat'' ?v = slug_list_value [''a'', ''b'']"
    by (simp add: view_eval_defs eval_defs)
  have d: "\<forall>x \<in> set [''a'', ''b'']. x \<noteq> [] \<and> CHR '','' \<notin> set x" by simp
  have e: "''c'' \<noteq> []" "CHR '','' \<notin> set ''c''" by simp_all
  have f: "listing_param ''posts'' ''cat'' ?v = Value (JStr ''a,b'')"
    by (simp add: view_eval_defs eval_defs)
  have g: "''cat'' \<notin> set object_prototype_members"
    by (simp add: object_prototype_members_def)
  from toggle_twice_restores_or_moves [OF a b c d e g, of query_string net30]
  have "param_after ''posts'' ''cat'' (toggle_twice query_string net30 ''cat'' ''c'' ''posts'' ?v)
        = Inr (Value (JStr ''a,b''))"
    by (simp add: f)
  with a b c e g show ?thesis by simp
qed

text \<open>
  C8. A configuration with a root element and a template function but no \<open>pathname\<close>
  makes \<open>createListing\<close> throw: \<open>pathname\<close> has no default, and \<open>!pathname.length\<close> reads
  \<open>length\<close> of \<open>undefined\<close>.
\<close>

theorem createListing_without_pathname_throws:
  "createListing ser net urlParameters ''posts''
     [(''rootEl'', CElem 0), (''template'', CFun ''postSearchTemplate'' 1)] v = Inl TypeError"
  by (simp add: createListing_def listingDefaults_def cfg_get_def assign_def)

theorem createListing_without_pathname_throws_witness:
  "createListing query_string net30 [] ''posts''
     [(''rootEl'', CElem 0), (''template'', CFun ''postSearchTemplate'' 1)]
     \<lparr>state = [(''loading'', JBool False), (''visible'', JBool False), (''foundPosts'', JNumber (Num 0))],
      published = [], listings = [], console = []\<rparr>
   = Inl TypeError"
  by (rule createListing_without_pathname_throws)

lemma createListing_undefined_searchParam_throws:
  "createListing ser net urlParameters ''posts''
     [(''rootEl'', CElem 0), (''template'', CFun ''postSearchTemplate'' 1),
      (''pathname'', CPrim (JStr ''/posts'')), (''searchParam'', CPrim JUndefined)] v = Inl TypeError"
  by (simp add: createListing_def listingDefaults_def cfg_get_def assign_def)

lemma createListing_warns:
  fixes listingConfig :: cfgobj
  defines "listingOptions \<equiv> assign (assign [] listingDefaults) listingConfig"
  shows "\<not> cfg_truthy (cfg_get listingOptions ''rootEl'') \<Longrightarrow>
           createListing ser net urlParameters name listingConfig v = Inr (warn (MissingRootEl name) v)"
    and "cfg_truthy (cfg_get listingOptions ''rootEl'') \<Longrightarrow>
         \<not> is_function (cfg_get listingOptions ''template'') \<Longrightarrow>
           createListing ser net urlParameters name listingConfig v = Inr (warn (BadTemplate name) v)"
    and "cfg_truthy (cfg_get listingOptions ''rootEl'') \<Longrightarrow>
         is_function (cfg_get listingOptions ''template'') \<Longrightarrow>
         cfg_get listingOptions ''pathname'' = CPrim (JStr []) \<Longrightarrow>
           createListing ser net urlParameters name listingConfig v = Inr (warn (EmptyPathname name) v)"
    and "cfg_truthy (cfg_get listingOptions ''rootEl'') \<Longrightarrow>
         is_function (cfg_get listingOptions ''template'') \<Longrightarrow>
         cfg_get listingOptions ''pathname'' = CPrim (JStr (c # cs)) \<Longrightarrow>
         cfg_get listingOptions ''searchParam'' = CPrim (JStr []) \<Longrightarrow>
           createListing ser net urlParameters name listingConfig v = Inr (warn (EmptySearchParam name) v)"
    and "listings (warn w v) = listings v"
  unfolding listingOptions_def
  by (auto simp: createListing_def Let_def warn_def elim: is_function.elims)

text \<open>
  A taxonomy named like a member of \<open>Object.prototype\<close> is outside the amended claim: with
  \<open>constructor = 'a'\<close> the first toggle of \<open>a\<close> deletes the parameter, and the second reads
  the inherited member and throws.
\<close>

lemma toggle_twice_prototype_member_throws:
  "toggle_twice_in ''constructor'' ''a'' ''posts'' (posts_view [(''constructor'', JStr ''a'')])
   = Inl TypeError"
  by (simp add: view_eval_defs eval_defs)

end
